theory Spec2Isabelle
  imports Main "HOL-Library.Sublist"
begin

section \<open>Code blocks of a generated response (MainPanel.jsx)\<close>

text \<open>
  The component keeps the generated code in one state object with the three fields
  \<^verbatim>\<open>html\<close>, \<^verbatim>\<open>css\<close> and \<^verbatim>\<open>js\<close>
  (\<^verbatim>\<open>useState({ html: "", css: "", js: "" })\<close>). A JavaScript string is a
  sequence of code units; here it is a \<^typ>\<open>string\<close>, one \<^typ>\<open>char\<close> per
  code unit. The matcher below is polymorphic in the type of the code units, so everything
  proved about it holds for any alphabet; only the markers themselves are fixed ASCII text.
\<close>

record code_blocks =
  html :: string
  css :: string
  js :: string

subsection \<open>The regular expressions of \<^verbatim>\<open>extractCodeBlocks\<close>\<close>

text \<open>
  Each of the three patterns has the shape
  \<^verbatim>\<open>/```TAG\n([\s\S]*?)```/\<close>: a literal opening text, one capture group
  holding a lazy repetition of the class \<^verbatim>\<open>[\s\S]\<close> (which every code unit
  belongs to), and the literal closing text.

  \<open>lazy_any cl s\<close> is the capture group together with what follows it, run at the
  start of \<open>s\<close>: the lazy quantifier first tries to go on with no further iteration
  (the closing literal must then be a prefix of the rest); only when that fails does it
  consume one more code unit and try again. At the end of the input nothing can be consumed
  and the attempt fails.
\<close>

fun lazy_any :: "'a list \<Rightarrow> 'a list \<Rightarrow> 'a list option" where
  "lazy_any cl [] = (if prefix cl [] then Some [] else None)"
| "lazy_any cl (c # cs) =
     (if prefix cl (c # cs) then Some [] else map_option ((#) c) (lazy_any cl cs))"

text \<open>
  \<open>match_at opn cl s\<close> runs the whole pattern at the start of \<open>s\<close>: the opening
  literal, then the capture group and the closing literal. The result is the text of
  capture group 1.
\<close>

definition match_at :: "'a list \<Rightarrow> 'a list \<Rightarrow> 'a list \<Rightarrow> 'a list option" where
  "match_at opn cl s = (if prefix opn s then lazy_any cl (drop (length opn) s) else None)"

text \<open>
  \<open>regexp_match opn cl s\<close> is \<^verbatim>\<open>s.match(re)\<close> for a pattern without the
  global flag: the pattern is tried at index 0, 1, 2, ... up to and including the length of
  the input, and the first index where it matches decides. \<open>None\<close> is the \<^verbatim>\<open>null\<close>
  that \<^verbatim>\<open>match\<close> returns when no index matches.
\<close>

fun regexp_match :: "'a list \<Rightarrow> 'a list \<Rightarrow> 'a list \<Rightarrow> 'a list option" where
  "regexp_match opn cl [] = match_at opn cl []"
| "regexp_match opn cl (c # cs) =
     (case match_at opn cl (c # cs) of
        Some cap \<Rightarrow> Some cap
      | None \<Rightarrow> regexp_match opn cl cs)"

text \<open>
  \<^verbatim>\<open>m?.[1] || ""\<close>: without a match the optional chain gives
  \<^verbatim>\<open>undefined\<close> and the disjunction the empty string; with a match it gives the
  capture, and an empty capture (falsy) is again replaced by the empty string.
\<close>

definition or_empty :: "'a list option \<Rightarrow> 'a list" where
  "or_empty m = (case m of None \<Rightarrow> [] | Some cap \<Rightarrow> (if cap = [] then [] else cap))"

subsection \<open>\<^verbatim>\<open>extractCodeBlocks\<close>\<close>

definition extractCodeBlocks :: "string \<Rightarrow> code_blocks" where
  "extractCodeBlocks text =
     \<lparr> html = or_empty (regexp_match ''```html\<newline>'' ''```'' text),
       css = or_empty (regexp_match ''```css\<newline>'' ''```'' text),
       js = or_empty (regexp_match ''```js\<newline>'' ''```'' text) \<rparr>"

subsection \<open>\<^verbatim>\<open>renderPreview\<close>\<close>

text \<open>
  The template literal \<^verbatim>\<open>linkScript\<close>, with the line breaks and the indentation it
  has in the source.
\<close>

definition linkScript :: string where
  "linkScript =
     ''\<newline>'' @
     ''        <script>\<newline>'' @
     ''          window.onload = function () {\<newline>'' @
     ''            const anchors = document.querySelectorAll('a');\<newline>'' @
     ''            anchors.forEach(a => {\<newline>'' @
     ''              a.setAttribute('target', '_blank');\<newline>'' @
     ''              a.setAttribute('rel', 'noopener noreferrer');\<newline>'' @
     ''            });\<newline>'' @
     ''          }\<newline>'' @
     ''        </script>\<newline>'' @
     ''      ''"

text \<open>
  The value of the \<^verbatim>\<open>srcDoc\<close> attribute: a template literal with the four
  substitutions \<^verbatim>\<open>${code.css}\<close>, \<^verbatim>\<open>${code.html}\<close>,
  \<^verbatim>\<open>${code.js}\<close> and \<^verbatim>\<open>${linkScript}\<close>. The five constant pieces
  between the substitutions are named so that statements can refer to them.
\<close>

definition doc_head :: string where
  \<open>doc_head =
     ''<!DOCTYPE html>\<newline>'' @
     ''            <html>\<newline>'' @
     ''              <head>\<newline>'' @
     ''                <meta charset="UTF-8" />\<newline>'' @
     ''                <style>''\<close>

definition doc_after_css :: string where
  "doc_after_css =
     ''</style>\<newline>'' @
     ''              </head>\<newline>'' @
     ''              <body>\<newline>'' @
     ''                ''"

definition doc_after_html :: string where
  "doc_after_html =
     ''\<newline>'' @
     ''                <script>''"

definition doc_after_js :: string where
  "doc_after_js =
     ''</script>\<newline>'' @
     ''                ''"

definition doc_tail :: string where
  "doc_tail =
     ''\<newline>'' @
     ''              </body>\<newline>'' @
     ''            </html>''"

definition srcDoc :: "code_blocks \<Rightarrow> string" where
  "srcDoc code =
     doc_head @ css code @ doc_after_css @ html code @ doc_after_html @ js code @
     doc_after_js @ linkScript @ doc_tail"

text \<open>
  What \<^verbatim>\<open>renderPreview\<close> returns: the scrolling \<^verbatim>\<open>pre\<close> element with one
  code block for the tabs HTML, CSS and JS, the \<^verbatim>\<open>iframe\<close> with its
  \<^verbatim>\<open>srcDoc\<close> for the tab Preview, and \<^verbatim>\<open>undefined\<close> (no return statement
  is reached) for any other tab, such as the initial \<^verbatim>\<open>"Website"\<close>.
\<close>

datatype view = CodeScroll string | Iframe string | Undefined

definition renderPreview :: "string \<Rightarrow> code_blocks \<Rightarrow> view" where
  "renderPreview activeTab code =
     (if activeTab \<in> set [''HTML'', ''CSS'', ''JS'']
      then CodeScroll
             (if activeTab = ''HTML'' then html code
              else if activeTab = ''CSS'' then css code
              else js code)
      else if activeTab = ''Preview'' then Iframe (srcDoc code)
      else Undefined)"

subsection \<open>The function installed by \<^verbatim>\<open>linkScript\<close>\<close>

text \<open>
  The text of \<^verbatim>\<open>linkScript\<close> is itself a program: it assigns a function to
  \<^verbatim>\<open>window.onload\<close>. That function is modelled over a document tree of elements,
  each with a tag name, its attributes in order, and its child elements.
  \<^verbatim>\<open>setAttribute\<close> replaces the value of an attribute that is present and
  appends the attribute otherwise; \<^verbatim>\<open>getAttribute\<close> reads it.
\<close>

datatype element =
  Element (tagName: string) (attributes: "(string \<times> string) list") (children: "element list")

fun setAttribute :: "string \<Rightarrow> string \<Rightarrow> (string \<times> string) list \<Rightarrow> (string \<times> string) list" where
  "setAttribute n v [] = [(n, v)]"
| "setAttribute n v ((k, w) # as) =
     (if k = n then (n, v) # as else (k, w) # setAttribute n v as)"


text \<open>
  \<^verbatim>\<open>document.querySelectorAll('a')\<close> selects every element of the tree whose tag
  name is \<^verbatim>\<open>a\<close>; \<^verbatim>\<open>forEach\<close> then sets \<^verbatim>\<open>target\<close> and
  \<^verbatim>\<open>rel\<close> on each selected element, in this order. Setting an attribute changes
  neither the tree nor the selection, so the loop over the selection is a map over the tree.
\<close>

fun onload :: "element \<Rightarrow> element" where
  "onload (Element t as cs) =
     Element t
       (if t = ''a''
        then setAttribute ''rel'' ''noopener noreferrer'' (setAttribute ''target'' ''_blank'' as)
        else as)
       (map onload cs)"


subsection \<open>The text of \<^verbatim>\<open>linkScript\<close> as a program\<close>

text \<open>
  To say what the text of \<^verbatim>\<open>linkScript\<close> does, the shape of script it belongs to
  gets a syntax tree, a concrete syntax and a meaning. A script of this shape is
  \<^verbatim>\<open>window.onload = function () { const anchors = document.querySelectorAll(SEL);
  anchors.forEach(a => { BODY }); }\<close> inside a \<^verbatim>\<open>script\<close> element, where
  \<^verbatim>\<open>SEL\<close> is a tag name in quotes and \<^verbatim>\<open>BODY\<close> a sequence of
  \<^verbatim>\<open>a.setAttribute(NAME, VALUE);\<close> statements.
\<close>

datatype stmt = SetAttribute string string

datatype script = OnloadForEach string "stmt list"







section \<open>Vocabulary of the statements\<close>

text \<open>
  The three categories of code, the tag each one carries in its opening marker, the closing
  marker they share, and the field of the result that belongs to each.
\<close>

datatype category = Html | Css | Js

definition fence :: string where
  "fence = ''```''"

fun tag :: "category \<Rightarrow> string" where
  "tag Html = ''html''"
| "tag Css = ''css''"
| "tag Js = ''js''"

definition open_marker :: "category \<Rightarrow> string" where
  "open_marker cat = fence @ tag cat @ ''\<newline>''"

fun slot :: "category \<Rightarrow> code_blocks \<Rightarrow> string" where
  "slot Html code = html code"
| "slot Css code = css code"
| "slot Js code = js code"

text \<open>
  \<open>no_earlier m pre\<close>: in the text \<open>pre @ m\<close> the marker \<open>m\<close> starts at no
  index below \<open>length pre\<close>, so that the occurrence right after \<open>pre\<close> is the first
  one. With the opening marker this says that \<open>pre\<close> is what precedes the first opening
  marker; with the closing marker it says that a body ends at the first closing marker that
  follows its start.
\<close>

fun no_earlier :: "'a list \<Rightarrow> 'a list \<Rightarrow> bool" where
  "no_earlier m [] = True"
| "no_earlier m (c # cs) = (\<not> prefix m (c # cs @ m) \<and> no_earlier m cs)"

text \<open>
  The text with one fenced segment per category, in the order markup, style, behaviour, the
  segments joined by \<open>sep\<close> (empty, or the line break that a response puts after a
  closing marker).
\<close>

definition segment :: "category \<Rightarrow> code_blocks \<Rightarrow> string" where
  "segment cat code = open_marker cat @ slot cat code @ fence"

definition canonical :: "string \<Rightarrow> code_blocks \<Rightarrow> string" where
  "canonical sep code = segment Html code @ sep @ segment Css code @ sep @ segment Js code"

definition whitespace :: "char set" where
  "whitespace = {CHR '' '', CHR ''\<newline>'', CHR 0x09, CHR 0x0D}"

text \<open>The response text of the end-to-end example, one marker per line.\<close>

definition example_response :: string where
  "example_response =
     ''```html\<newline>'' @
     ''<h1>Hi</h1>\<newline>'' @
     ''```\<newline>'' @
     ''```css\<newline>'' @
     ''h1{color:red}\<newline>'' @
     ''```\<newline>'' @
     ''```js\<newline>'' @
     ''console.log(1)\<newline>'' @
     ''```''"

section \<open>Properties of the matcher\<close>

lemma prefix_append_long: "length m \<le> length u \<Longrightarrow> prefix m (u @ v) = prefix m u"
proof
  assume le: "length m \<le> length u" and "prefix m (u @ v)"
  then obtain z where "u @ v = m @ z" by (auto simp: prefix_def)
  then have "take (length m) (u @ v) = m" by simp
  with le have "take (length m) u = m" by simp
  then show "prefix m u" by (metis take_is_prefix)
next
  assume "prefix m u"
  then show "prefix m (u @ v)" by (rule prefix_prefix)
qed

text \<open>The recursive \<open>no_earlier\<close> is the statement about indices.\<close>

lemma no_earlier_iff:
  "no_earlier m pre \<longleftrightarrow> (\<forall>i<length pre. \<not> prefix m (drop i (pre @ m)))"
proof (induction pre)
  case Nil
  show ?case by simp
next
  case (Cons c cs)
  have "(\<forall>i<Suc (length cs). \<not> prefix m (drop i (c # cs @ m))) \<longleftrightarrow>
        (\<not> prefix m (c # cs @ m) \<and> (\<forall>i<length cs. \<not> prefix m (drop i (cs @ m))))"
    by (auto simp: less_Suc_eq_0_disj)
  with Cons show ?case by simp
qed

lemma no_earlier_not_sublist: "m \<noteq> [] \<Longrightarrow> no_earlier m x \<Longrightarrow> \<not> sublist m x"
proof (induction x)
  case Nil
  then show ?case by simp
next
  case (Cons c cs)
  have "prefix m (c # cs) \<Longrightarrow> prefix m (c # cs @ m)"
    by (metis append_Cons prefix_prefix)
  with Cons show ?case by (auto simp: sublist_Cons_right)
qed

lemma regexp_match_unfold:
  "regexp_match opn cl s =
     (case match_at opn cl s of
        Some cap \<Rightarrow> Some cap
      | None \<Rightarrow> (case s of [] \<Rightarrow> None | c # cs \<Rightarrow> regexp_match opn cl cs))"
  by (cases s) (auto split: option.splits)

lemma lazy_any_now: "prefix cl s \<Longrightarrow> lazy_any cl s = Some []"
  by (cases s) auto

lemma lazy_any_first:
  "no_earlier cl body \<Longrightarrow> lazy_any cl (body @ cl @ rest) = Some body"
proof (induction body)
  case Nil
  show ?case by (simp add: lazy_any_now)
next
  case (Cons c cs)
  have "length cl \<le> length (c # cs @ cl)" by simp
  from prefix_append_long [OF this, of rest] Cons.prems
  have "\<not> prefix cl (c # cs @ cl @ rest)" by simp
  with Cons show ?case by simp
qed

lemma lazy_any_sound:
  "lazy_any cl s = Some cap \<Longrightarrow> no_earlier cl cap \<and> (\<exists>post. s = cap @ cl @ post)"
proof (induction s arbitrary: cap)
  case Nil
  then show ?case by (auto split: if_splits)
next
  case (Cons c cs)
  show ?case
  proof (cases "prefix cl (c # cs)")
    case True
    with Cons.prems show ?thesis by (auto simp: prefix_def)
  next
    case False
    with Cons.prems obtain cap' where c': "lazy_any cl cs = Some cap'" "cap = c # cap'"
      by auto
    from Cons.IH [OF c'(1)] obtain post where p: "no_earlier cl cap'" "cs = cap' @ cl @ post"
      by blast
    have "length cl \<le> length (c # cap' @ cl)" by simp
    from prefix_append_long [OF this, of post] False p(2)
    have "\<not> prefix cl (c # cap' @ cl)" by simp
    with p c'(2) show ?thesis by auto
  qed
qed

lemma lazy_any_None: "\<not> sublist cl s \<Longrightarrow> lazy_any cl s = None"
  by (induction s) (auto simp: sublist_Cons_right)

lemma match_at_open: "match_at opn cl (opn @ rest) = lazy_any cl rest"
  by (simp add: match_at_def)

lemma match_at_sound:
  assumes "match_at opn cl s = Some cap"
  shows "no_earlier cl cap \<and> (\<exists>post. s = opn @ cap @ cl @ post)"
proof -
  from assms have p: "prefix opn s" and l: "lazy_any cl (drop (length opn) s) = Some cap"
    by (auto simp: match_at_def split: if_splits)
  from p obtain r where r: "s = opn @ r" by (auto simp: prefix_def)
  with l have "lazy_any cl r = Some cap" by simp
  from lazy_any_sound [OF this] r show ?thesis by auto
qed

text \<open>Text before the first opening marker is passed over.\<close>

lemma regexp_match_skip:
  "no_earlier opn pre \<Longrightarrow>
   regexp_match opn cl (pre @ opn @ rest) = regexp_match opn cl (opn @ rest)"
proof (induction pre)
  case Nil
  show ?case by simp
next
  case (Cons c cs)
  have "length opn \<le> length (c # cs @ opn)" by simp
  from prefix_append_long [OF this, of rest] Cons.prems
  have "\<not> prefix opn (c # cs @ opn @ rest)" by simp
  then have "match_at opn cl (c # cs @ opn @ rest) = None"
    by (simp add: match_at_def)
  with Cons show ?case by simp
qed

text \<open>
  The match starts at the first opening marker and the capture ends at the first closing
  marker after it, whatever follows.
\<close>

lemma regexp_match_first:
  assumes "no_earlier opn pre" and "no_earlier cl body"
  shows "regexp_match opn cl (pre @ opn @ body @ cl @ rest) = Some body"
proof -
  have "match_at opn cl (opn @ body @ cl @ rest) = Some body"
    using assms(2) by (simp add: match_at_open lazy_any_first)
  then have "regexp_match opn cl (opn @ body @ cl @ rest) = Some body"
    by (subst regexp_match_unfold) simp
  with regexp_match_skip [OF assms(1)] show ?thesis by simp
qed

text \<open>A capture is always a piece of the input between the two markers.\<close>

lemma regexp_match_sound:
  "regexp_match opn cl s = Some cap \<Longrightarrow>
   no_earlier cl cap \<and> (\<exists>pre post. s = pre @ opn @ cap @ cl @ post)"
proof (induction s)
  case Nil
  then have "match_at opn cl [] = Some cap" by simp
  from match_at_sound [OF this] show ?case by auto
next
  case (Cons c cs)
  show ?case
  proof (cases "match_at opn cl (c # cs)")
    case (Some cap')
    with Cons.prems have "match_at opn cl (c # cs) = Some cap" by simp
    from match_at_sound [OF this] show ?thesis
      by (metis append_Nil)
  next
    case None
    with Cons.prems have "regexp_match opn cl cs = Some cap" by simp
    from Cons.IH [OF this] obtain pre post where
      "no_earlier cl cap" "cs = pre @ opn @ cap @ cl @ post" by blast
    then have "no_earlier cl cap" "c # cs = (c # pre) @ opn @ cap @ cl @ post" by simp_all
    then show ?thesis by blast
  qed
qed

lemma regexp_match_no_open: "\<not> sublist opn s \<Longrightarrow> regexp_match opn cl s = None"
  by (induction s) (auto simp: sublist_Cons_right match_at_def)

text \<open>An opening marker with no closing marker after it gives no match at all.\<close>

lemma regexp_match_unclosed:
  assumes "no_earlier opn pre" and "\<not> sublist cl rest"
  shows "regexp_match opn cl (pre @ opn @ rest) = None"
proof (rule ccontr)
  assume "regexp_match opn cl (pre @ opn @ rest) \<noteq> None"
  then obtain cap where "regexp_match opn cl (opn @ rest) = Some cap"
    using regexp_match_skip [OF assms(1), of cl rest] by auto
  then have c: "(case match_at opn cl (opn @ rest) of Some cap \<Rightarrow> Some cap
     | None \<Rightarrow> (case opn @ rest of [] \<Rightarrow> None | c # cs \<Rightarrow> regexp_match opn cl cs)) = Some cap"
    by (subst (asm) regexp_match_unfold)
  have m: "match_at opn cl (opn @ rest) = None"
    using assms(2) by (simp add: match_at_open lazy_any_None)
  from c m obtain x xs where x: "opn @ rest = x # xs" "regexp_match opn cl xs = Some cap"
    by (auto split: list.splits)
  from regexp_match_sound [OF x(2)] obtain p q where pq: "xs = p @ opn @ cap @ cl @ q"
    by blast
  define a where "a = x # p @ opn"
  have le: "length opn \<le> length a" by (simp add: a_def)
  have "rest = drop (length opn) (opn @ rest)" by simp
  also have "\<dots> = drop (length opn) (a @ cap @ cl @ q)"
    using x(1) pq by (simp add: a_def)
  also have "\<dots> = drop (length opn) a @ cap @ cl @ q"
    using le by simp
  finally have "sublist cl rest"
    by (metis append_assoc sublist_appendI)
  with assms(2) show False by simp
qed

text \<open>
  Passing over a body that ends at its closing marker, for a pattern whose opening marker
  starts with the closing marker, and passing over text without the first code unit of the
  opening marker.
\<close>

lemma regexp_match_skip_body:
  assumes "prefix f m"
  shows "no_earlier f h \<Longrightarrow> regexp_match m cl (h @ f @ x) = regexp_match m cl (f @ x)"
proof (induction h)
  case Nil
  show ?case by simp
next
  case (Cons c cs)
  have "\<not> prefix m (c # cs @ f @ x)"
  proof
    assume "prefix m (c # cs @ f @ x)"
    with assms have "prefix f ((c # cs @ f) @ x)"
      by (metis append_Cons append_assoc prefix_order.trans)
    moreover have "length f \<le> length (c # cs @ f)" by simp
    ultimately have "prefix f (c # cs @ f)"
      using prefix_append_long by blast
    with Cons.prems show False by simp
  qed
  then have "match_at m cl (c # cs @ f @ x) = None"
    by (simp add: match_at_def)
  with Cons show ?case by simp
qed

lemma regexp_match_skip_chars:
  "c \<notin> set s \<Longrightarrow> regexp_match (c # m) cl (s @ x) = regexp_match (c # m) cl x"
  by (induction s) (auto simp: match_at_def)

section \<open>Properties of \<^verbatim>\<open>extractCodeBlocks\<close>\<close>

lemma or_empty_simps: "or_empty None = []" "or_empty (Some cap) = cap"
  by (simp_all add: or_empty_def)

lemma slot_extract:
  "slot cat (extractCodeBlocks t) = or_empty (regexp_match (open_marker cat) fence t)"
  by (cases cat) (simp_all add: extractCodeBlocks_def open_marker_def fence_def)

lemma open_marker_fence: "prefix fence (open_marker cat)"
  by (simp add: open_marker_def)

lemma fence_not_Nil: "fence \<noteq> []"
  by (simp add: fence_def)

lemma slot_first:
  assumes "no_earlier (open_marker cat) pre" and "no_earlier fence body"
  shows "slot cat (extractCodeBlocks (pre @ open_marker cat @ body @ fence @ rest)) = body"
  by (simp add: slot_extract regexp_match_first [OF assms] or_empty_simps)

lemma slot_no_open:
  "\<not> sublist (open_marker cat) t \<Longrightarrow> slot cat (extractCodeBlocks t) = []"
  by (simp add: slot_extract regexp_match_no_open or_empty_simps)

lemma slot_sound:
  assumes "slot cat (extractCodeBlocks t) \<noteq> []"
  shows "no_earlier fence (slot cat (extractCodeBlocks t)) \<and>
         (\<exists>pre post. t = pre @ open_marker cat @ slot cat (extractCodeBlocks t) @ fence @ post)"
proof -
  from assms obtain cap where c: "regexp_match (open_marker cat) fence t = Some cap"
    by (cases "regexp_match (open_marker cat) fence t")
       (auto simp: slot_extract or_empty_simps)
  then have "slot cat (extractCodeBlocks t) = cap"
    by (simp add: slot_extract or_empty_simps)
  with regexp_match_sound [OF c] show ?thesis by simp
qed

lemma slot_no_earlier: "no_earlier fence (slot cat (extractCodeBlocks t))"
  by (cases "slot cat (extractCodeBlocks t) = []") (auto dest: slot_sound)

section \<open>Properties of the link script\<close>







section \<open>Writing the blocks back as fenced segments\<close>

text \<open>
  A text without three consecutive backticks that does not end in a backtick ends, once
  the closing marker is appended, at the first closing marker.
\<close>

lemma fence_clear:
  "\<not> sublist fence s \<Longrightarrow> \<not> suffix ''`'' s \<Longrightarrow> no_earlier fence s"
proof (induction s)
  case Nil
  show ?case by simp
next
  case (Cons c cs)
  show ?case
  proof (cases cs)
    case Nil
    with Cons.prems show ?thesis
      by (auto simp: fence_def suffix_def)
  next
    case (Cons d ds)
    from Cons.prems(1) have 1: "\<not> sublist fence cs" "\<not> prefix fence (c # cs)"
      by (simp_all add: sublist_Cons_right)
    from Cons.prems(2) Cons have 2: "\<not> suffix ''`'' cs"
      by (simp add: suffix_Cons)
    have "\<not> prefix fence (c # cs @ fence)"
    proof (cases ds)
      case Nil
      with Cons Cons.prems(2) show ?thesis
        by (auto simp: fence_def suffix_def)
    next
      case (Cons e es)
      with \<open>cs = d # ds\<close> 1(2) show ?thesis
        by (simp add: fence_def)
    qed
    with Cons.IH [OF 1(1) 2] show ?thesis by simp
  qed
qed

lemma skip_other_marker:
  "cat \<noteq> cat' \<Longrightarrow>
   regexp_match (open_marker cat) fence (open_marker cat' @ x)
     = regexp_match (open_marker cat) fence x"
  by (cases cat; cases cat') (simp_all add: open_marker_def fence_def match_at_def)

lemma skip_fence_sep:
  assumes "set sep \<subseteq> whitespace"
  shows "regexp_match (open_marker cat) fence (fence @ sep @ open_marker cat' @ y)
           = regexp_match (open_marker cat) fence (open_marker cat' @ y)"
proof (cases sep)
  case Nil
  then show ?thesis
    by (cases cat; cases cat') (simp_all add: open_marker_def fence_def match_at_def)
next
  case (Cons w ws)
  with assms have w: "w \<noteq> CHR ''`''" "w \<noteq> CHR ''h''" "w \<noteq> CHR ''c''" "w \<noteq> CHR ''j''"
    by (auto simp: whitespace_def)
  from assms have "CHR ''`'' \<notin> set sep"
    by (auto simp: whitespace_def)
  then have s: "regexp_match (CHR ''`'' # m) fence (sep @ z) = regexp_match (CHR ''`'' # m) fence z"
    for m z
    by (rule regexp_match_skip_chars)
  have "regexp_match (open_marker cat) fence (fence @ sep @ open_marker cat' @ y)
          = regexp_match (open_marker cat) fence (sep @ open_marker cat' @ y)"
    using w Cons by (cases cat) (simp_all add: open_marker_def fence_def match_at_def)
  also have "\<dots> = regexp_match (open_marker cat) fence (open_marker cat' @ y)"
    using s [of "tl (open_marker cat)" "open_marker cat' @ y"]
    by (simp add: open_marker_def fence_def)
  finally show ?thesis .
qed

lemma skip_segment:
  assumes "cat \<noteq> cat'" and "no_earlier fence (slot cat' code)" and "set sep \<subseteq> whitespace"
  shows "regexp_match (open_marker cat) fence (segment cat' code @ sep @ open_marker cat'' @ y)
           = regexp_match (open_marker cat) fence (open_marker cat'' @ y)"
proof -
  let ?r = "sep @ open_marker cat'' @ y"
  have "regexp_match (open_marker cat) fence (segment cat' code @ ?r)
        = regexp_match (open_marker cat) fence (slot cat' code @ fence @ ?r)"
    using skip_other_marker [OF assms(1)] by (simp add: segment_def)
  also have "\<dots> = regexp_match (open_marker cat) fence (fence @ ?r)"
    using regexp_match_skip_body [OF open_marker_fence assms(2)] .
  also have "\<dots> = regexp_match (open_marker cat) fence (open_marker cat'' @ y)"
    using skip_fence_sep [OF assms(3)] .
  finally show ?thesis .
qed

lemma at_segment:
  assumes "no_earlier fence (slot cat code)"
  shows "regexp_match (open_marker cat) fence (segment cat code @ y) = Some (slot cat code)"
  using regexp_match_first [of "open_marker cat" "[]" fence "slot cat code" y] assms
  by (simp add: segment_def)

lemma extract_canonical:
  assumes h: "no_earlier fence (html code)" and c: "no_earlier fence (css code)"
    and j: "no_earlier fence (js code)" and sep: "set sep \<subseteq> whitespace"
  shows "extractCodeBlocks (canonical sep code) = code"
proof -
  let ?t = "canonical sep code"
  from h c j have n: "no_earlier fence (slot Html code)" "no_earlier fence (slot Css code)"
    "no_earlier fence (slot Js code)" by simp_all
  have "regexp_match (open_marker Html) fence ?t = Some (slot Html code)"
    using at_segment [OF n(1)] by (simp add: canonical_def)
  moreover have "regexp_match (open_marker Css) fence ?t = Some (slot Css code)"
    unfolding canonical_def segment_def [of Css]
    using skip_segment [of Css Html code sep Css, OF _ n(1) sep] at_segment [OF n(2)]
    by (simp add: segment_def)
  moreover have "regexp_match (open_marker Js) fence ?t = Some (slot Js code)"
  proof -
    have "regexp_match (open_marker Js) fence ?t
        = regexp_match (open_marker Js) fence (segment Css code @ sep @ segment Js code)"
      unfolding canonical_def segment_def [of Css]
      using skip_segment [of Js Html code sep Css, OF _ n(1) sep]
      by (simp add: segment_def)
    also have "\<dots> = regexp_match (open_marker Js) fence (segment Js code)"
      unfolding segment_def [of Js]
      using skip_segment [of Js Css code sep Js, OF _ n(2) sep] by simp
    also have "\<dots> = Some (slot Js code)"
      using at_segment [OF n(3), of "[]"] by simp
    finally show ?thesis .
  qed
  ultimately have "slot Html (extractCodeBlocks ?t) = slot Html code"
    "slot Css (extractCodeBlocks ?t) = slot Css code"
    "slot Js (extractCodeBlocks ?t) = slot Js code"
    by (simp_all only: slot_extract or_empty_simps)
  then show ?thesis by simp
qed

section \<open>The claims\<close>

text \<open>
  C1. Extraction is total: for every response text the result has its three fields, a
  category of which the text holds no fenced segment (opening marker, some body, closing
  marker) has the empty string in its field, and the empty text gives three empty fields.
\<close>

theorem extract_total:
  "(\<exists>h c j. extractCodeBlocks t = \<lparr>html = h, css = c, js = j\<rparr>) \<and>
   (\<forall>cat. \<not> (\<exists>pre body post. t = pre @ open_marker cat @ body @ fence @ post) \<longrightarrow>
      slot cat (extractCodeBlocks t) = []) \<and>
   extractCodeBlocks [] = \<lparr>html = [], css = [], js = []\<rparr>"
proof (intro conjI allI impI)
  show "\<exists>h c j. extractCodeBlocks t = \<lparr>html = h, css = c, js = j\<rparr>"
    by (simp add: extractCodeBlocks_def)
next
  fix cat
  assume none: "\<not> (\<exists>pre body post. t = pre @ open_marker cat @ body @ fence @ post)"
  show "slot cat (extractCodeBlocks t) = []"
  proof (rule ccontr)
    assume "slot cat (extractCodeBlocks t) \<noteq> []"
    from slot_sound [OF this] none show False by blast
  qed
next
  show "extractCodeBlocks [] = \<lparr>html = [], css = [], js = []\<rparr>"
    by (simp add: extractCodeBlocks_def match_at_def or_empty_def)
qed

theorem extract_total_witness:
  "\<not> (\<exists>pre body post. ''<p>hello</p>'' = pre @ open_marker Css @ body @ fence @ post) \<and>
   slot Css (extractCodeBlocks ''<p>hello</p>'') = []"
proof -
  have "\<not> sublist (open_marker Css) ''<p>hello</p>''"
    by (simp add: open_marker_def fence_def sublist_code)
  then have n: "\<not> (\<exists>pre body post. ''<p>hello</p>'' = pre @ open_marker Css @ body @ fence @ post)"
    by (metis sublist_appendI)
  with extract_total [of "''<p>hello</p>''"] show ?thesis by blast
qed

text \<open>
  C2. First match, shortest capture: when \<open>pre\<close> is the text before the first opening
  marker of a category and \<open>body\<close> ends at the first closing marker after that marker, the
  field of the category is exactly \<open>body\<close>, whatever follows the closing marker; in
  particular a second segment of the same category, with any body \<open>later\<close>, changes
  nothing.
\<close>

theorem first_match_policy:
  assumes "no_earlier (open_marker cat) pre" and "no_earlier fence body"
  shows "slot cat (extractCodeBlocks (pre @ open_marker cat @ body @ fence @ rest)) = body \<and>
         slot cat (extractCodeBlocks
           (pre @ open_marker cat @ body @ fence @ mid @ open_marker cat @ later @ fence @ rest))
         = body"
  using slot_first [OF assms] by simp

theorem first_match_policy_witness:
  "no_earlier (open_marker Html) ''Here: '' \<and> no_earlier fence ''<p>1</p>'' \<and>
   slot Html (extractCodeBlocks
     (''Here: '' @ open_marker Html @ ''<p>1</p>'' @ fence @ ''or'' @ open_marker Html @
      ''<p>2</p>'' @ fence @ ''.'')) = ''<p>1</p>''"
proof -
  have a: "no_earlier (open_marker Html) ''Here: ''"
    by (simp add: open_marker_def fence_def)
  have b: "no_earlier fence ''<p>1</p>''"
    by (simp add: fence_def)
  from first_match_policy [OF a b] a b show ?thesis by blast
qed

text \<open>
  C3. The composed document has a fixed order: for every triple of code blocks, the
  \<^verbatim>\<open>srcDoc\<close> of the preview is the declaration and the opening of the style block,
  the style, the closing of the style block and the opening of the body, the markup, the
  opening of the script block, the behaviour, its closing, the link script and the end of
  the document. Each block is embedded once: the length of the document is the length of
  the fixed text plus the lengths of the three blocks.
\<close>

theorem compose_fixed_order:
  "renderPreview ''Preview'' code =
     Iframe (doc_head @ css code @ doc_after_css @ html code @ doc_after_html @ js code @
             doc_after_js @ linkScript @ doc_tail) \<and>
   length (srcDoc code) = 596 + length (css code) + length (html code) + length (js code) \<and>
   prefix ''<!DOCTYPE html>'' doc_head \<and> suffix ''<style>'' doc_head \<and>
   prefix ''</style>'' doc_after_css \<and> sublist ''<body>'' doc_after_css \<and>
   suffix ''<script>'' doc_after_html \<and> prefix ''</script>'' doc_after_js \<and>
   sublist ''</body>'' doc_tail"
proof (intro conjI)
  show "renderPreview ''Preview'' code =
     Iframe (doc_head @ css code @ doc_after_css @ html code @ doc_after_html @ js code @
             doc_after_js @ linkScript @ doc_tail)"
    by (simp add: renderPreview_def srcDoc_def)
  have "length doc_head = 120" by (simp add: doc_head_def)
  moreover have "length doc_after_css = 68" by (simp add: doc_after_css_def)
  moreover have "length doc_after_html = 25" by (simp add: doc_after_html_def)
  moreover have "length doc_after_js = 26" by (simp add: doc_after_js_def)
  moreover have "length linkScript = 315" by (simp add: linkScript_def)
  moreover have "length doc_tail = 42" by (simp add: doc_tail_def)
  ultimately show
    "length (srcDoc code) = 596 + length (css code) + length (html code) + length (js code)"
    by (simp add: srcDoc_def)
  show "prefix ''<!DOCTYPE html>'' doc_head" by (simp add: doc_head_def)
  show "suffix ''<style>'' doc_head" by (simp add: doc_head_def suffix_to_prefix)
  show "prefix ''</style>'' doc_after_css" by (simp add: doc_after_css_def)
  show "sublist ''<body>'' doc_after_css" by (simp add: doc_after_css_def sublist_code)
  show "suffix ''<script>'' doc_after_html" by (simp add: doc_after_html_def suffix_to_prefix)
  show "prefix ''</script>'' doc_after_js" by (simp add: doc_after_js_def)
  show "sublist ''</body>'' doc_tail" by (simp add: doc_tail_def sublist_code)
qed




text \<open>
  C5. Writing back and extracting again. As stated for every triple of code blocks the
  property fails: a block that holds three consecutive backticks is cut at them.
\<close>

theorem roundtrip_counterexample:
  "extractCodeBlocks
     (canonical [] \<lparr>html = ''<pre>```</pre>'', css = ''p{}'', js = ''f()''\<rparr>)
   = \<lparr>html = ''<pre>'', css = ''p{}'', js = ''f()''\<rparr> \<and>
   extractCodeBlocks
     (canonical [] \<lparr>html = ''<pre>```</pre>'', css = ''p{}'', js = ''f()''\<rparr>)
   \<noteq> \<lparr>html = ''<pre>```</pre>'', css = ''p{}'', js = ''f()''\<rparr>"
  by (simp add: extractCodeBlocks_def canonical_def segment_def open_marker_def fence_def
      match_at_def or_empty_def)

text \<open>
  C5, amended. For code blocks none of which holds three consecutive backticks or ends in a
  backtick, and segments joined by white space only (or by nothing), extracting from the
  written text gives the blocks back. Every result of \<^verbatim>\<open>extractCodeBlocks\<close> is such
  a triple, so writing a result back and extracting again reproduces it.
\<close>

theorem roundtrip_fence_free:
  "(set sep \<subseteq> whitespace \<and>
    (\<forall>s \<in> {html code, css code, js code}. \<not> sublist fence s \<and> \<not> suffix ''`'' s) \<longrightarrow>
      extractCodeBlocks (canonical sep code) = code) \<and>
   (set sep \<subseteq> whitespace \<longrightarrow>
      extractCodeBlocks (canonical sep (extractCodeBlocks t)) = extractCodeBlocks t)"
proof (intro conjI impI)
  assume a: "set sep \<subseteq> whitespace \<and>
    (\<forall>s \<in> {html code, css code, js code}. \<not> sublist fence s \<and> \<not> suffix ''`'' s)"
  then have "no_earlier fence (html code)" "no_earlier fence (css code)"
    "no_earlier fence (js code)"
    by (simp_all add: fence_clear)
  with a show "extractCodeBlocks (canonical sep code) = code"
    by (intro extract_canonical) simp_all
next
  assume a: "set sep \<subseteq> whitespace"
  have "no_earlier fence (html (extractCodeBlocks t))"
    "no_earlier fence (css (extractCodeBlocks t))"
    "no_earlier fence (js (extractCodeBlocks t))"
    using slot_no_earlier [of Html t] slot_no_earlier [of Css t] slot_no_earlier [of Js t]
    by simp_all
  with a show "extractCodeBlocks (canonical sep (extractCodeBlocks t)) = extractCodeBlocks t"
    by (intro extract_canonical)
qed

theorem roundtrip_fence_free_witness:
  "set ''\<newline>'' \<subseteq> whitespace \<and>
   \<not> sublist fence ''<p>`x`</p>'' \<and> \<not> suffix ''`'' ''<p>`x`</p>'' \<and>
   \<not> sublist fence ''p{}'' \<and> \<not> suffix ''`'' ''p{}'' \<and>
   \<not> sublist fence ''f(`${a}`)'' \<and> \<not> suffix ''`'' ''f(`${a}`)'' \<and>
   extractCodeBlocks
     (canonical ''\<newline>'' \<lparr>html = ''<p>`x`</p>'', css = ''p{}'', js = ''f(`${a}`)''\<rparr>)
   = \<lparr>html = ''<p>`x`</p>'', css = ''p{}'', js = ''f(`${a}`)''\<rparr> \<and>
   extractCodeBlocks (canonical ''\<newline>'' (extractCodeBlocks example_response))
   = extractCodeBlocks example_response"
proof -
  let ?c = "\<lparr>html = ''<p>`x`</p>'', css = ''p{}'', js = ''f(`${a}`)''\<rparr>"
  have w: "set ''\<newline>'' \<subseteq> whitespace"
    by (simp add: whitespace_def)
  have f: "\<not> sublist fence ''<p>`x`</p>'' \<and> \<not> suffix ''`'' ''<p>`x`</p>'' \<and>
           \<not> sublist fence ''p{}'' \<and> \<not> suffix ''`'' ''p{}'' \<and>
           \<not> sublist fence ''f(`${a}`)'' \<and> \<not> suffix ''`'' ''f(`${a}`)''"
    by (simp add: fence_def sublist_code suffix_to_prefix)
  from roundtrip_fence_free [of "''\<newline>''" ?c example_response] w f
  show ?thesis by simp
qed

text \<open>
  C6. Independence of the categories. As stated, with the presence or absence of the
  markers of one category never changing what another field captures, the property fails:
  the backticks of another category's marker close a segment that is otherwise unclosed.
  The first text below has no style marker and an empty behaviour field; with a style
  segment appended the behaviour field is filled.
\<close>

theorem categories_counterexample:
  "\<not> sublist (open_marker Css) ''```js\<newline>abc\<newline>'' \<and>
   slot Js (extractCodeBlocks ''```js\<newline>abc\<newline>'') = [] \<and>
   slot Js (extractCodeBlocks (''```js\<newline>abc\<newline>'' @ ''```css\<newline>q```''))
     = ''abc\<newline>''"
  by (simp add: extractCodeBlocks_def open_marker_def fence_def sublist_code
      match_at_def or_empty_def)

text \<open>
  C6, amended. When the text holds no opening marker of one category, the field of that
  category is empty, and the field of every category that has a segment in the text
  (\<open>pre\<close> before its first opening marker, \<open>body\<close> up to the first closing marker
  after it) is exactly that body. This field is the same for every other text \<open>pre'\<close>
  before the first opening marker and every text \<open>rest'\<close> after that closing marker, so
  markers of another category in those places, present or absent, do not change it.
\<close>

theorem categories_independent:
  assumes "\<not> sublist (open_marker missing) t"
  shows "slot missing (extractCodeBlocks t) = [] \<and>
         (\<forall>cat pre body rest.
            t = pre @ open_marker cat @ body @ fence @ rest \<and>
            no_earlier (open_marker cat) pre \<and> no_earlier fence body \<longrightarrow>
            slot cat (extractCodeBlocks t) = body \<and>
            (\<forall>pre' rest'. no_earlier (open_marker cat) pre' \<longrightarrow>
               slot cat (extractCodeBlocks (pre' @ open_marker cat @ body @ fence @ rest'))
                 = slot cat (extractCodeBlocks t)))"
  using assms by (auto simp: slot_no_open slot_first)

theorem categories_independent_witness:
  "\<not> sublist (open_marker Html) ''```css\<newline>p{}```, then ```js\<newline>f()```'' \<and>
   extractCodeBlocks ''```css\<newline>p{}```, then ```js\<newline>f()```''
     = \<lparr>html = [], css = ''p{}'', js = ''f()''\<rparr> \<and>
   no_earlier (open_marker Css) ''```html\<newline><p>'' \<and>
   slot Css (extractCodeBlocks
     (''```html\<newline><p>'' @ open_marker Css @ ''p{}'' @ fence @ ''</p>```''))
     = slot Css (extractCodeBlocks ''```css\<newline>p{}```, then ```js\<newline>f()```'')"
proof -
  let ?t = "''```css\<newline>p{}```, then ```js\<newline>f()```''"
  have n: "\<not> sublist (open_marker Html) ?t"
    by (simp add: open_marker_def fence_def sublist_code)
  have c: "?t = [] @ open_marker Css @ ''p{}'' @ fence @ '', then ```js\<newline>f()```'' \<and>
           no_earlier (open_marker Css) [] \<and> no_earlier fence ''p{}''"
    by (simp add: open_marker_def fence_def)
  have j: "?t = ''```css\<newline>p{}```, then '' @ open_marker Js @ ''f()'' @ fence @ [] \<and>
           no_earlier (open_marker Js) ''```css\<newline>p{}```, then '' \<and> no_earlier fence ''f()''"
    by (simp add: open_marker_def fence_def)
  have p: "no_earlier (open_marker Css) ''```html\<newline><p>''"
    by (simp add: open_marker_def fence_def)
  from categories_independent [OF n] c j
  have "slot Html (extractCodeBlocks ?t) = []" "slot Css (extractCodeBlocks ?t) = ''p{}''"
    "slot Js (extractCodeBlocks ?t) = ''f()''"
    by blast+
  then have e: "extractCodeBlocks ?t = \<lparr>html = [], css = ''p{}'', js = ''f()''\<rparr>"
    by simp
  from categories_independent [OF n] c p
  have "slot Css (extractCodeBlocks
     (''```html\<newline><p>'' @ open_marker Css @ ''p{}'' @ fence @ ''</p>```''))
     = slot Css (extractCodeBlocks ?t)"
    by blast
  with n e p show ?thesis by blast
qed

text \<open>
  C7. Nothing is trimmed: with \<open>pre\<close> before the first opening marker and the body
  \<open>lead @ core @ trail\<close> ending at the first closing marker after it, the field is the
  whole body, with whatever white space \<open>lead\<close> and \<open>trail\<close> are. For the response of
  the end-to-end example the three fields are the three lines, each with the line feed that
  precedes its closing marker.
\<close>

theorem whitespace_preserved:
  "(no_earlier (open_marker cat) pre \<and> no_earlier fence (lead @ core @ trail) \<longrightarrow>
      slot cat (extractCodeBlocks (pre @ open_marker cat @ lead @ core @ trail @ fence @ rest))
        = lead @ core @ trail) \<and>
   extractCodeBlocks example_response =
     \<lparr>html = ''<h1>Hi</h1>\<newline>'', css = ''h1{color:red}\<newline>'',
      js = ''console.log(1)\<newline>''\<rparr>"
proof (intro conjI impI)
  assume "no_earlier (open_marker cat) pre \<and> no_earlier fence (lead @ core @ trail)"
  then have "slot cat (extractCodeBlocks
      (pre @ open_marker cat @ (lead @ core @ trail) @ fence @ rest)) = lead @ core @ trail"
    by (intro slot_first) simp_all
  then show "slot cat (extractCodeBlocks
      (pre @ open_marker cat @ lead @ core @ trail @ fence @ rest)) = lead @ core @ trail"
    by simp
next
  show "extractCodeBlocks example_response =
     \<lparr>html = ''<h1>Hi</h1>\<newline>'', css = ''h1{color:red}\<newline>'',
      js = ''console.log(1)\<newline>''\<rparr>"
    by (simp add: extractCodeBlocks_def example_response_def match_at_def or_empty_def)
qed

theorem whitespace_preserved_witness:
  "no_earlier (open_marker Html) ''x'' \<and>
   no_earlier fence (''\<newline>  '' @ ''<p>a b</p>'' @ '' \<newline>'') \<and>
   slot Html (extractCodeBlocks
     (''x'' @ open_marker Html @ ''\<newline>  '' @ ''<p>a b</p>'' @ '' \<newline>'' @ fence @ ''y''))
     = ''\<newline>  <p>a b</p> \<newline>''"
proof -
  have a: "no_earlier (open_marker Html) ''x'' \<and>
           no_earlier fence (''\<newline>  '' @ ''<p>a b</p>'' @ '' \<newline>'')"
    by (simp add: open_marker_def fence_def)
  with whitespace_preserved [of Html "''x''" "''\<newline>  ''" "''<p>a b</p>''" "'' \<newline>''" "''y''"]
  show ?thesis by simp
qed

text \<open>
  C8. No field of the result ever contains the closing marker, three consecutive backticks.
\<close>

theorem slots_hold_no_fence:
  "\<not> sublist fence (slot cat (extractCodeBlocks t))"
  using no_earlier_not_sublist [OF fence_not_Nil slot_no_earlier] .

text \<open>
  C9. An unclosed segment. As stated, for any opening marker with no closing marker after
  it, the property fails: when an earlier opening marker of the category precedes it, its
  own backticks close the earlier segment, and the field holds that segment's body.
\<close>

theorem unclosed_counterexample:
  "''```js\<newline>a```js\<newline>b'' = ''```js\<newline>a'' @ open_marker Js @ ''b'' \<and>
   \<not> sublist fence ''b'' \<and>
   slot Js (extractCodeBlocks ''```js\<newline>a```js\<newline>b'') = ''a''"
  by (simp add: extractCodeBlocks_def open_marker_def fence_def sublist_code
      match_at_def or_empty_def)

text \<open>
  C9, amended. When \<open>pre\<close> is the text before the first opening marker of a category
  and no closing marker occurs in the text \<open>rest\<close> after that marker, the field of the
  category is empty: the unclosed segment captures nothing, and in particular not the text
  up to the end of the input.
\<close>

theorem unclosed_segment_is_empty:
  assumes "no_earlier (open_marker cat) pre" and "\<not> sublist fence rest"
  shows "slot cat (extractCodeBlocks (pre @ open_marker cat @ rest)) = []"
  by (simp add: slot_extract regexp_match_unclosed [OF assms] or_empty_simps)

theorem unclosed_segment_is_empty_witness:
  "no_earlier (open_marker Js) ''code: '' \<and> \<not> sublist fence ''let x = `a`;'' \<and>
   slot Js (extractCodeBlocks (''code: '' @ open_marker Js @ ''let x = `a`;'')) = []"
proof -
  have a: "no_earlier (open_marker Js) ''code: ''"
    by (simp add: open_marker_def fence_def)
  have b: "\<not> sublist fence ''let x = `a`;''"
    by (simp add: fence_def sublist_code)
  from unclosed_segment_is_empty [OF a b] a b show ?thesis by blast
qed

text \<open>
  C10. The opening marker needs the line feed right after the tag: a text in which the
  backticks and the tag are followed by any other code unit \<open>c\<close> (a space, more text on
  the line, a carriage return), and which holds the well-formed marker nowhere, leaves the
  field of the category empty.
\<close>

theorem marker_needs_line_feed:
  assumes "t = pre @ fence @ tag cat @ c # rest" and "c \<noteq> CHR ''\<newline>''"
    and "\<not> sublist (open_marker cat) t"
  shows "slot cat (extractCodeBlocks t) = []"
  using assms(3) by (rule slot_no_open)

theorem marker_needs_line_feed_witness:
  "slot Html (extractCodeBlocks (''```html <b>x</b>```'')) = [] \<and>
   slot Css (extractCodeBlocks (''```css p{}\<newline>a{}```'')) = [] \<and>
   slot Js (extractCodeBlocks ([] @ fence @ tag Js @ CHR 0x0D # ''\<newline>f()\<newline>```'')) = []"
proof -
  have 1: "''```html <b>x</b>```'' = [] @ fence @ tag Html @ CHR '' '' # ''<b>x</b>```''"
    by (simp add: fence_def)
  have 2: "''```css p{}\<newline>a{}```'' = [] @ fence @ tag Css @ CHR '' '' # ''p{}\<newline>a{}```''"
    by (simp add: fence_def)
  have 3: "[] @ fence @ tag Js @ CHR 0x0D # ''\<newline>f()\<newline>```''
           = [] @ fence @ tag Js @ CHR 0x0D # ''\<newline>f()\<newline>```''"
    by simp
  have n1: "\<not> sublist (open_marker Html) ''```html <b>x</b>```''"
    by (simp add: open_marker_def fence_def sublist_code)
  have n2: "\<not> sublist (open_marker Css) ''```css p{}\<newline>a{}```''"
    by (simp add: open_marker_def fence_def sublist_code)
  have n3: "\<not> sublist (open_marker Js) ([] @ fence @ tag Js @ CHR 0x0D # ''\<newline>f()\<newline>```'')"
    by (simp add: open_marker_def fence_def sublist_code)
  have c1: "CHR '' '' \<noteq> CHR ''\<newline>''" by simp
  have c3: "CHR 0x0D \<noteq> CHR ''\<newline>''" by simp
  from marker_needs_line_feed [OF 1 c1 n1] marker_needs_line_feed [OF 2 c1 n2]
    marker_needs_line_feed [OF 3 c3 n3]
  show ?thesis by blast
qed

end
